theory Spec2Isabelle
  imports Main "HOL-Library.Sublist"
begin

section \<open>JavaScript values read by the frame handler\<close>

text \<open>
  The handler of \<open>OpenAIProvider.generateAnswer\<close> keeps the result of \<open>JSON.parse\<close> in an
  untyped variable (\<open>let data\<close>), so every property read, truthiness test and coercion
  follows the dynamic rules of JavaScript. A value is \<open>undefined\<close>, \<open>null\<close>, a boolean, a
  number, a string, an array or a plain object. Numbers are the integers (the handler only
  tests them for truthiness and compares a \<open>length\<close> with zero); an object is the list of its
  own properties.
\<close>

datatype jsval =
    JUndef
  | JNull
  | JBool bool
  | JNum int
  | JStr string
  | JArr "jsval list"
  | JObj "(string \<times> jsval) list"

datatype js_error = TypeError | SyntaxError

text \<open>
  Three operations of the platform are taken as parameters: \<open>JSON.parse\<close> (\<open>None\<close> is the
  thrown \<open>SyntaxError\<close>), the rendering of a number as a string, and whether a string,
  converted to a number, is greater than zero.
\<close>

record platform =
  JSON_parse :: "string \<Rightarrow> jsval option"
  num_to_string :: "int \<Rightarrow> string"
  str_gt_zero :: "string \<Rightarrow> bool"

text \<open>Truthiness, as tested by \<open>!x\<close>, \<open>x && y\<close>, \<open>x || y\<close> and \<open>if (x)\<close>.\<close>

fun truthy :: "jsval \<Rightarrow> bool" where
  "truthy JUndef = False"
| "truthy JNull = False"
| "truthy (JBool b) = b"
| "truthy (JNum n) = (n \<noteq> 0)"
| "truthy (JStr s) = (s \<noteq> [])"
| "truthy (JArr xs) = True"
| "truthy (JObj kvs) = True"

fun nullish :: "jsval \<Rightarrow> bool" where
  "nullish JUndef = True"
| "nullish JNull = True"
| "nullish v = False"

text \<open>
  The property read \<open>v.k\<close> for the names the handler reads (\<open>id\<close>, \<open>choices\<close>, \<open>length\<close>,
  \<open>delta\<close>, \<open>finish_reason\<close>, \<open>content\<close>): none of them is inherited from a prototype, so
  an object answers with its own property, an array and a string answer only to \<open>length\<close>,
  and reading a property of \<open>null\<close> or \<open>undefined\<close> throws a \<open>TypeError\<close>.
\<close>

fun get_prop :: "jsval \<Rightarrow> string \<Rightarrow> js_error + jsval" where
  "get_prop JUndef k = Inl TypeError"
| "get_prop JNull k = Inl TypeError"
| "get_prop (JBool b) k = Inr JUndef"
| "get_prop (JNum n) k = Inr JUndef"
| "get_prop (JStr s) k = Inr (if k = ''length'' then JNum (int (length s)) else JUndef)"
| "get_prop (JArr xs) k = Inr (if k = ''length'' then JNum (int (length xs)) else JUndef)"
| "get_prop (JObj kvs) k = Inr (case map_of kvs k of None \<Rightarrow> JUndef | Some v \<Rightarrow> v)"

text \<open>The indexed read \<open>v[0]\<close> of a value that is neither \<open>null\<close> nor \<open>undefined\<close>.\<close>

fun index0 :: "jsval \<Rightarrow> jsval" where
  "index0 (JArr []) = JUndef"
| "index0 (JArr (x # xs)) = x"
| "index0 (JStr []) = JUndef"
| "index0 (JStr (c # cs)) = JStr [c]"
| "index0 (JObj kvs) = (case map_of kvs ''0'' of None \<Rightarrow> JUndef | Some v \<Rightarrow> v)"
| "index0 v = JUndef"

text \<open>
  Conversion to a string, as \<open>result += content\<close> performs it on its right operand. An array
  joins its elements with commas, \<open>null\<close> and \<open>undefined\<close> elements giving the empty string;
  a plain object gives \<open>[object Object]\<close> through the inherited \<open>toString\<close>, and throws a
  \<open>TypeError\<close> when an own property named \<open>toString\<close> (never callable in parsed JSON)
  shadows it.
\<close>

fun to_string :: "platform \<Rightarrow> jsval \<Rightarrow> js_error + string"
  and join_elems :: "platform \<Rightarrow> jsval list \<Rightarrow> js_error + string" where
  "to_string P JUndef = Inr ''undefined''"
| "to_string P JNull = Inr ''null''"
| "to_string P (JBool b) = Inr (if b then ''true'' else ''false'')"
| "to_string P (JNum n) = Inr (num_to_string P n)"
| "to_string P (JStr s) = Inr s"
| "to_string P (JArr xs) = join_elems P xs"
| "to_string P (JObj kvs) =
     (if map_of kvs ''toString'' = None then Inr ''[object Object]'' else Inl TypeError)"
| "join_elems P [] = Inr []"
| "join_elems P (x # xs) =
     (case (if nullish x then Inr [] else to_string P x) of
        Inl e \<Rightarrow> Inl e
      | Inr s \<Rightarrow>
          (case xs of
             [] \<Rightarrow> Inr s
           | y # ys \<Rightarrow>
               (case join_elems P xs of
                  Inl e \<Rightarrow> Inl e
                | Inr t \<Rightarrow> Inr (s @ '','' @ t))))"

text \<open>The comparison \<open>v > 0\<close>: the operand is converted to a number first.\<close>

fun gt_zero :: "platform \<Rightarrow> jsval \<Rightarrow> js_error + bool" where
  "gt_zero P JUndef = Inr False"
| "gt_zero P JNull = Inr False"
| "gt_zero P (JBool b) = Inr b"
| "gt_zero P (JNum n) = Inr (0 < n)"
| "gt_zero P (JStr s) = Inr (str_gt_zero P s)"
| "gt_zero P v =
     (case to_string P v of Inl e \<Rightarrow> Inl e | Inr s \<Rightarrow> Inr (str_gt_zero P s))"

section \<open>Events and the state of one call\<close>

text \<open>
  Modelled from the spec: the type of the events handed to \<open>params.onEvent\<close> is declared
  in module \<open>../types\<close>, which is not among the sources. The handler builds
  \<open>{type: 'answer', data: {text, messageId, conversationId}}\<close> and \<open>{type: 'done'}\<close>; the
  \<open>Error\<close> variant is the third variant of the spec's AnswerEvent.
\<close>

datatype event =
    Answer (ev_text: string) (ev_messageId: jsval) (ev_conversationId: jsval)
  | Done
  | Error string

text \<open>The two variables of \<open>generateAnswer\<close> that the handler closes over.\<close>

record stream_state =
  result :: string
  messageId :: jsval

definition initial_state :: stream_state where
  "initial_state = \<lparr>result = [], messageId = JStr []\<rparr>"

section \<open>The frame handler\<close>

text \<open>\<open>if (!messageId && data.id) { messageId = data.id }\<close>; \<open>data.id\<close> is read only when
  \<open>messageId\<close> is falsy.\<close>

definition record_id :: "stream_state \<Rightarrow> jsval \<Rightarrow> js_error + stream_state" where
  "record_id st data =
     (if truthy (messageId st) then Inr st
      else (case get_prop data ''id'' of
              Inl e \<Rightarrow> Inl e
            | Inr i \<Rightarrow> Inr (if truthy i then st\<lparr>messageId := i\<rparr> else st)))"

text \<open>The condition \<open>data.choices && data.choices.length > 0\<close>.\<close>

definition has_choices :: "platform \<Rightarrow> jsval \<Rightarrow> js_error + bool" where
  "has_choices P data =
     (case get_prop data ''choices'' of
        Inl e \<Rightarrow> Inl e
      | Inr choices \<Rightarrow>
          if \<not> truthy choices then Inr False
          else (case get_prop choices ''length'' of
                  Inl e \<Rightarrow> Inl e
                | Inr len \<Rightarrow> gt_zero P len))"

text \<open>\<open>const { delta, finish_reason } = data.choices[0]\<close>: destructuring \<open>null\<close> or
  \<open>undefined\<close> throws.\<close>

definition first_choice :: "jsval \<Rightarrow> js_error + (jsval \<times> jsval)" where
  "first_choice data =
     (case get_prop data ''choices'' of
        Inl e \<Rightarrow> Inl e
      | Inr choices \<Rightarrow>
          (let c = index0 choices in
           case get_prop c ''delta'' of
             Inl e \<Rightarrow> Inl e
           | Inr delta \<Rightarrow>
               (case get_prop c ''finish_reason'' of
                  Inl e \<Rightarrow> Inl e
                | Inr finish_reason \<Rightarrow> Inr (delta, finish_reason))))"

text \<open>\<open>const content = delta?.content || ''\<close>.\<close>

definition extract_content :: "jsval \<Rightarrow> jsval" where
  "extract_content delta =
     (let c = (if nullish delta then JUndef
               else (case get_prop delta ''content'' of Inl e \<Rightarrow> JUndef | Inr v \<Rightarrow> v))
      in if truthy c then c else JStr [])"

text \<open>
  The body of the \<open>try\<close> block after a successful parse, together with the \<open>catch\<close> that logs
  and returns: an exception ends the handler without an event, and an assignment to
  \<open>messageId\<close> made before the throw stays.
\<close>

definition handle_data :: "platform \<Rightarrow> stream_state \<Rightarrow> jsval \<Rightarrow> stream_state \<times> event list" where
  "handle_data P st data =
     (case record_id st data of
        Inl e \<Rightarrow> (st, [])
      | Inr st1 \<Rightarrow>
          (case has_choices P data of
             Inl e \<Rightarrow> (st1, [])
           | Inr False \<Rightarrow> (st1, [])
           | Inr True \<Rightarrow>
               (case first_choice data of
                  Inl e \<Rightarrow> (st1, [])
                | Inr (delta, finish_reason) \<Rightarrow>
                    if finish_reason = JStr ''stop'' then (st1, [Done])
                    else
                      (let content = extract_content delta in
                       if truthy content then
                         (case to_string P content of
                            Inl e \<Rightarrow> (st1, [])
                          | Inr s \<Rightarrow>
                              (let st2 = st1\<lparr>result := result st1 @ s\<rparr>
                               in (st2, [Answer (result st2) (messageId st2) (messageId st2)])))
                       else (st1, [])))))"

definition sentinel :: string where
  "sentinel = ''[DONE]''"

text \<open>\<open>onMessage(message)\<close>: the new values of the two variables and the events emitted for
  this frame, in order.\<close>

definition onMessage :: "platform \<Rightarrow> stream_state \<Rightarrow> string \<Rightarrow> stream_state \<times> event list" where
  "onMessage P st message =
     (if message = sentinel then (st, [Done])
      else (case JSON_parse P message of
              None \<Rightarrow> (st, [])
            | Some data \<Rightarrow> handle_data P st data))"

text \<open>The transport calls the handler once per frame, in arrival order.\<close>

fun run_frames :: "platform \<Rightarrow> stream_state \<Rightarrow> string list \<Rightarrow> stream_state \<times> event list" where
  "run_frames P st [] = (st, [])"
| "run_frames P st (m # ms) =
     (case onMessage P st m of
        (st1, ev1) \<Rightarrow> (case run_frames P st1 ms of (st2, ev2) \<Rightarrow> (st2, ev1 @ ev2)))"

section \<open>The provider\<close>

record provider =
  token :: string
  model :: string
  apiBaseUrl :: string

text \<open>The constructor: \<open>this.apiBaseUrl = apiBaseUrl || 'https://api.openai.com'\<close>; the
  optional parameter is \<open>None\<close> when omitted or \<open>undefined\<close>.\<close>

definition OpenAIProvider :: "string \<Rightarrow> string \<Rightarrow> string option \<Rightarrow> provider" where
  "OpenAIProvider tok mdl base =
     \<lparr>token = tok, model = mdl,
      apiBaseUrl = (case base of
                      None \<Rightarrow> ''https://api.openai.com''
                    | Some u \<Rightarrow> if u = [] then ''https://api.openai.com'' else u)\<rparr>"

record chat_message =
  role :: string
  content :: string

definition buildMessages :: "string \<Rightarrow> chat_message list" where
  "buildMessages prompt =
     [\<lparr>role = ''developer'', content = ''You are a helpful assistant.''\<rparr>,
      \<lparr>role = ''user'', content = prompt\<rparr>]"

text \<open>The request handed to \<open>fetchSSE\<close>; the body is the object given to \<open>JSON.stringify\<close>.\<close>

record request_body =
  body_model :: string
  body_messages :: "chat_message list"
  body_stream :: bool

record request =
  url :: string
  http_method :: string
  headers :: "(string \<times> string) list"
  body :: request_body

definition build_request :: "provider \<Rightarrow> string \<Rightarrow> request" where
  "build_request this prompt =
     \<lparr>url = apiBaseUrl this @ ''/v1/chat/completions'',
      http_method = ''POST'',
      headers = [(''Content-Type'', ''application/json''),
                 (''Authorization'', ''Bearer '' @ token this)],
      body = \<lparr>body_model = model this, body_messages = buildMessages prompt,
              body_stream = True\<rparr>\<rparr>"

text \<open>
  \<open>fetchSSE\<close> (module \<open>../fetch-sse\<close>) is a parameter: for a request it delivers a list of
  frames to the handler and then resolves (\<open>None\<close>) or rejects with an error. It receives
  the handler only, so it emits no event itself.
\<close>

type_synonym transport = "request \<Rightarrow> string list \<times> string option"

record call_outcome =
  sent :: request
  events :: "event list"
  returned :: "string + unit"

text \<open>\<open>generateAnswer(params)\<close>: the events passed to \<open>params.onEvent\<close>, and the promise's
  outcome: \<open>Inr ()\<close> for the returned \<open>{}\<close>, \<open>Inl\<close> when the awaited \<open>fetchSSE\<close> rejects.\<close>

definition generateAnswer :: "platform \<Rightarrow> transport \<Rightarrow> provider \<Rightarrow> string \<Rightarrow> call_outcome" where
  "generateAnswer P fetchSSE this prompt =
     (let req = build_request this prompt in
      case fetchSSE req of
        (frames, failure) \<Rightarrow>
          \<lparr>sent = req,
           events = snd (run_frames P initial_state frames),
           returned = (case failure of None \<Rightarrow> Inr () | Some e \<Rightarrow> Inl e)\<rparr>)"

section \<open>Notions used by the properties\<close>

text \<open>
  The top-level id a frame carries, as the handler sees it: the value of \<open>data.id\<close> of a
  frame that is not the sentinel and parses, when that value is truthy (the handler's test
  \<open>!messageId && data.id\<close> treats \<open>null\<close>, \<open>false\<close>, \<open>0\<close> and the empty string like an
  absent id).
\<close>

definition frame_id :: "platform \<Rightarrow> string \<Rightarrow> jsval option" where
  "frame_id P message =
     (if message = sentinel then None
      else (case JSON_parse P message of
              None \<Rightarrow> None
            | Some data \<Rightarrow>
                (case get_prop data ''id'' of
                   Inl e \<Rightarrow> None
                 | Inr i \<Rightarrow> if truthy i then Some i else None)))"

text \<open>An event that is an \<open>Answer\<close> carries \<open>i\<close> as message and as conversation identifier.\<close>

fun answer_ids :: "jsval \<Rightarrow> event \<Rightarrow> bool" where
  "answer_ids i (Answer t m c) = (m = i \<and> c = i)"
| "answer_ids i e = True"

text \<open>The texts of the \<open>Answer\<close> events of a list of events, in order.\<close>

fun answer_texts :: "event list \<Rightarrow> string list" where
  "answer_texts [] = []"
| "answer_texts (Answer t m c # es) = t # answer_texts es"
| "answer_texts (e # es) = answer_texts es"



section \<open>A concrete platform\<close>

text \<open>
  A platform on which the model runs on concrete frames. Its \<open>JSON.parse\<close> reads JSON texts
  made of objects, arrays, strings (with the two-character escapes), integers, \<open>true\<close>,
  \<open>false\<close> and \<open>null\<close>, and rejects everything else; a repeated key keeps its first
  position and takes the last value, as in JavaScript. Numbers are rendered in decimal,
  and a string is greater than zero when it is a decimal literal of a positive integer.
\<close>

definition is_ws :: "char \<Rightarrow> bool" where
  "is_ws c = (c = CHR '' '' \<or> c = CHR 0x09 \<or> c = CHR 0x0A \<or> c = CHR 0x0D)"

fun skip_ws :: "string \<Rightarrow> string" where
  "skip_ws [] = []"
| "skip_ws (c # cs) = (if is_ws c then skip_ws cs else c # cs)"

definition is_digit :: "char \<Rightarrow> bool" where
  "is_digit c = (48 \<le> (of_char c :: nat) \<and> (of_char c :: nat) \<le> 57)"

fun read_digits :: "nat \<Rightarrow> string \<Rightarrow> nat \<times> string" where
  "read_digits acc [] = (acc, [])"
| "read_digits acc (c # cs) =
     (if is_digit c then read_digits (10 * acc + (of_char c - 48)) cs else (acc, c # cs))"

text \<open>An unsigned integer literal: \<open>0\<close>, or digits that do not start with \<open>0\<close>; a
  fraction or an exponent after it is rejected.\<close>

definition read_nat :: "string \<Rightarrow> (nat \<times> string) option" where
  "read_nat s =
     (case s of
        [] \<Rightarrow> None
      | c # cs \<Rightarrow>
          if \<not> is_digit c then None
          else (case (if c = CHR ''0'' then (0, cs) else read_digits 0 s) of
                  (n, r) \<Rightarrow>
                    (case r of
                       [] \<Rightarrow> Some (n, r)
                     | d # ds \<Rightarrow>
                         if is_digit d \<or> d = CHR ''.'' \<or> d = CHR ''e'' \<or> d = CHR ''E''
                         then None else Some (n, r))))"

definition unescape :: "char \<Rightarrow> char option" where
  "unescape e =
     (if e = CHR 0x22 \<or> e = CHR 0x5C \<or> e = CHR ''/'' then Some e
      else if e = CHR ''b'' then Some (CHR 0x08)
      else if e = CHR ''f'' then Some (CHR 0x0C)
      else if e = CHR ''n'' then Some (CHR 0x0A)
      else if e = CHR ''r'' then Some (CHR 0x0D)
      else if e = CHR ''t'' then Some (CHR 0x09)
      else None)"

text \<open>The characters of a string literal after its opening quote, up to the closing one.\<close>

fun read_chars :: "string \<Rightarrow> string \<Rightarrow> (string \<times> string) option" where
  "read_chars acc [] = None"
| "read_chars acc [c] = (if c = CHR 0x22 then Some (rev acc, []) else None)"
| "read_chars acc (c # e # es) =
     (if c = CHR 0x22 then Some (rev acc, e # es)
      else if c = CHR 0x5C then
        (case unescape e of None \<Rightarrow> None | Some d \<Rightarrow> read_chars (d # acc) es)
      else if (of_char c :: nat) < 32 then None
      else read_chars (c # acc) (e # es))"

fun obj_put :: "string \<Rightarrow> jsval \<Rightarrow> (string \<times> jsval) list \<Rightarrow> (string \<times> jsval) list" where
  "obj_put k v [] = [(k, v)]"
| "obj_put k v ((k', v') # kvs) =
     (if k = k' then (k, v) # kvs else (k', v') # obj_put k v kvs)"

fun read_value :: "nat \<Rightarrow> string \<Rightarrow> (jsval \<times> string) option"
  and read_elems :: "nat \<Rightarrow> jsval list \<Rightarrow> string \<Rightarrow> (jsval list \<times> string) option"
  and read_members ::
    "nat \<Rightarrow> (string \<times> jsval) list \<Rightarrow> string \<Rightarrow> ((string \<times> jsval) list \<times> string) option"
  where
  "read_value 0 s = None"
| "read_value (Suc n) s =
     (case skip_ws s of
        [] \<Rightarrow> None
      | c # cs \<Rightarrow>
          if c = CHR ''{'' then
            (case skip_ws cs of
               [] \<Rightarrow> None
             | d # ds \<Rightarrow>
                 if d = CHR ''}'' then Some (JObj [], ds)
                 else (case read_members n [] (d # ds) of
                         None \<Rightarrow> None
                       | Some (kvs, r) \<Rightarrow> Some (JObj kvs, r)))
          else if c = CHR ''['' then
            (case skip_ws cs of
               [] \<Rightarrow> None
             | d # ds \<Rightarrow>
                 if d = CHR '']'' then Some (JArr [], ds)
                 else (case read_elems n [] (d # ds) of
                         None \<Rightarrow> None
                       | Some (xs, r) \<Rightarrow> Some (JArr xs, r)))
          else if c = CHR 0x22 then
            (case read_chars [] cs of
               None \<Rightarrow> None
             | Some (str, r) \<Rightarrow> Some (JStr str, r))
          else if take 4 (c # cs) = ''true'' then Some (JBool True, drop 4 (c # cs))
          else if take 5 (c # cs) = ''false'' then Some (JBool False, drop 5 (c # cs))
          else if take 4 (c # cs) = ''null'' then Some (JNull, drop 4 (c # cs))
          else if c = CHR ''-'' then
            (case read_nat cs of
               None \<Rightarrow> None
             | Some (k, r) \<Rightarrow> Some (JNum (- int k), r))
          else
            (case read_nat (c # cs) of
               None \<Rightarrow> None
             | Some (k, r) \<Rightarrow> Some (JNum (int k), r)))"
| "read_elems 0 acc s = None"
| "read_elems (Suc n) acc s =
     (case read_value n s of
        None \<Rightarrow> None
      | Some (v, r) \<Rightarrow>
          (case skip_ws r of
             [] \<Rightarrow> None
           | c # cs \<Rightarrow>
               if c = CHR '','' then read_elems n (acc @ [v]) cs
               else if c = CHR '']'' then Some (acc @ [v], cs)
               else None))"
| "read_members 0 acc s = None"
| "read_members (Suc n) acc s =
     (case skip_ws s of
        [] \<Rightarrow> None
      | q # qs \<Rightarrow>
          if q \<noteq> CHR 0x22 then None
          else
            (case read_chars [] qs of
               None \<Rightarrow> None
             | Some (k, r) \<Rightarrow>
                 (case skip_ws r of
                    [] \<Rightarrow> None
                  | c # cs \<Rightarrow>
                      if c \<noteq> CHR '':'' then None
                      else
                        (case read_value n cs of
                           None \<Rightarrow> None
                         | Some (v, r') \<Rightarrow>
                             (case skip_ws r' of
                                [] \<Rightarrow> None
                              | d # ds \<Rightarrow>
                                  if d = CHR '','' then read_members n (obj_put k v acc) ds
                                  else if d = CHR ''}'' then Some (obj_put k v acc, ds)
                                  else None)))))"

definition json_parse :: "string \<Rightarrow> jsval option" where
  "json_parse s =
     (case read_value (2 * length s + 2) s of
        None \<Rightarrow> None
      | Some (v, r) \<Rightarrow> if skip_ws r = [] then Some v else None)"

function show_nat :: "nat \<Rightarrow> string" where
  "show_nat n =
     (if n < 10 then [char_of (48 + n)]
      else show_nat (n div 10) @ [char_of (48 + n mod 10)])"
  by pat_completeness auto
termination
  by (relation "measure id") auto

declare show_nat.simps [simp del]

definition show_int :: "int \<Rightarrow> string" where
  "show_int i = (if i < 0 then CHR ''-'' # show_nat (nat (- i)) else show_nat (nat i))"

definition positive_literal :: "string \<Rightarrow> bool" where
  "positive_literal s =
     (case skip_ws s of
        [] \<Rightarrow> False
      | c # cs \<Rightarrow>
          is_digit c \<and> (case read_digits 0 (c # cs) of (n, r) \<Rightarrow> 0 < n \<and> skip_ws r = []))"

definition js :: platform where
  "js = \<lparr>JSON_parse = json_parse, num_to_string = show_int, str_gt_zero = positive_literal\<rparr>"

text \<open>The three frames of the streaming example, and three more used below.\<close>

definition frame_hel :: string where
  \<open>frame_hel = ''{"id":"m1","choices":[{"delta":{"content":"Hel"}}]}''\<close>

definition frame_lo :: string where
  \<open>frame_lo = ''{"choices":[{"delta":{"content":"lo"}}]}''\<close>

definition frame_stop :: string where
  \<open>frame_stop = ''{"id":"m2","choices":[{"delta":{},"finish_reason":"stop"}]}''\<close>

definition frame_role :: string where
  \<open>frame_role = ''{"id":"m2","choices":[{"delta":{"role":"assistant"},"finish_reason":null}]}''\<close>

definition frame_keepalive :: string where
  \<open>frame_keepalive = '': keep-alive''\<close>



text \<open>A provider built without a base URL, for the examples.\<close>

definition demo_provider :: provider where
  "demo_provider = OpenAIProvider ''sk-test'' ''gpt-4o-mini'' None"

section \<open>Properties of the frame handler\<close>

lemma record_id_cases:
  "record_id st data = Inr st1 \<Longrightarrow>
     result st1 = result st \<and>
     messageId st1 =
       (if truthy (messageId st) then messageId st
        else (case get_prop data ''id'' of
                Inl e \<Rightarrow> messageId st
              | Inr i \<Rightarrow> if truthy i then i else messageId st))"
  by (auto simp: record_id_def split: if_splits sum.splits)

lemma handle_data_events:
  "handle_data P st data = (st', evs) \<Longrightarrow>
     (evs = [] \<and> result st' = result st) \<or>
     (evs = [Done] \<and> result st' = result st) \<or>
     (\<exists>s. result st' = result st @ s \<and>
          evs = [Answer (result st') (messageId st') (messageId st')])"
  by (auto simp: handle_data_def Let_def
      split: sum.splits bool.splits prod.splits if_splits dest: record_id_cases)

lemma handle_data_id:
  "handle_data P st data = (st', evs) \<Longrightarrow>
     messageId st' =
       (if truthy (messageId st) then messageId st
        else (case get_prop data ''id'' of
                Inl e \<Rightarrow> messageId st
              | Inr i \<Rightarrow> if truthy i then i else messageId st))"
  by (auto simp: handle_data_def Let_def record_id_def
      split: sum.splits bool.splits prod.splits if_splits)

lemma onMessage_events:
  "onMessage P st m = (st', evs) \<Longrightarrow>
     (evs = [] \<and> result st' = result st) \<or>
     (evs = [Done] \<and> result st' = result st) \<or>
     (\<exists>s. result st' = result st @ s \<and>
          evs = [Answer (result st') (messageId st') (messageId st')])"
  by (auto simp: onMessage_def split: if_splits option.splits dest: handle_data_events)

lemma onMessage_id:
  "onMessage P st m = (st', evs) \<Longrightarrow>
     messageId st' =
       (if truthy (messageId st) then messageId st
        else (case frame_id P m of None \<Rightarrow> messageId st | Some i \<Rightarrow> i))"
  by (auto simp: onMessage_def frame_id_def
      split: if_splits option.splits sum.splits dest!: handle_data_id)

lemma run_frames_append:
  "run_frames P st (xs @ ys) =
     (case run_frames P st xs of
        (st1, e1) \<Rightarrow> (case run_frames P st1 ys of (st2, e2) \<Rightarrow> (st2, e1 @ e2)))"
  by (induction xs arbitrary: st) (auto split: prod.splits)


lemma onMessage_length: "length (snd (onMessage P st m)) \<le> 1"
proof -
  obtain st' evs where h: "onMessage P st m = (st', evs)" by (cases "onMessage P st m")
  from onMessage_events [OF h] show ?thesis using h by auto
qed

lemma onMessage_sentinel: "onMessage P st sentinel = (st, [Done])"
  by (simp add: onMessage_def)

lemma onMessage_no_error: "Error e \<notin> set (snd (onMessage P st m))"
proof -
  obtain st' evs where h: "onMessage P st m = (st', evs)" by (cases "onMessage P st m")
  from onMessage_events [OF h] show ?thesis using h by auto
qed

lemma run_frames_no_error: "Error e \<notin> set (snd (run_frames P st fs))"
proof (induction fs arbitrary: st)
  case Nil
  show ?case by simp
next
  case (Cons m ms)
  obtain st1 e1 where h: "onMessage P st m = (st1, e1)" by (cases "onMessage P st m")
  from onMessage_no_error [of e P st m] h have "Error e \<notin> set e1" by simp
  with Cons [of st1] h show ?case by (auto split: prod.splits)
qed

lemma run_frames_sentinel:
  "sentinel \<in> set fs \<Longrightarrow> Done \<in> set (snd (run_frames P st fs))"
proof (induction fs arbitrary: st)
  case Nil
  then show ?case by simp
next
  case (Cons m ms)
  obtain st1 e1 where h: "onMessage P st m = (st1, e1)" by (cases "onMessage P st m")
  show ?case
  proof (cases "m = sentinel")
    case True
    with h have "e1 = [Done]" by (simp add: onMessage_sentinel)
    with h show ?thesis by (auto split: prod.splits)
  next
    case False
    with Cons.prems have "sentinel \<in> set ms" by simp
    from Cons.IH [OF this, of st1] h show ?thesis by (auto split: prod.splits)
  qed
qed

lemma run_frames_id_kept:
  "truthy (messageId st) \<Longrightarrow>
     messageId (fst (run_frames P st fs)) = messageId st \<and>
     list_all (answer_ids (messageId st)) (snd (run_frames P st fs))"
proof (induction fs arbitrary: st)
  case Nil
  show ?case by simp
next
  case (Cons m ms)
  obtain st1 e1 where h: "onMessage P st m = (st1, e1)" by (cases "onMessage P st m")
  from onMessage_id [OF h] Cons.prems have id1: "messageId st1 = messageId st" by simp
  with Cons.prems have "truthy (messageId st1)" by simp
  from Cons.IH [OF this] id1
  have ih: "messageId (fst (run_frames P st1 ms)) = messageId st"
    "list_all (answer_ids (messageId st)) (snd (run_frames P st1 ms))" by simp_all
  from onMessage_events [OF h] id1 have "list_all (answer_ids (messageId st)) e1" by auto
  with ih h show ?case by (auto split: prod.splits)
qed

lemma run_frames_no_id:
  "\<forall>f\<in>set fs. frame_id P f = None \<Longrightarrow>
     messageId (fst (run_frames P st fs)) = messageId st \<and>
     list_all (answer_ids (messageId st)) (snd (run_frames P st fs))"
proof (induction fs arbitrary: st)
  case Nil
  show ?case by simp
next
  case (Cons m ms)
  obtain st1 e1 where h: "onMessage P st m = (st1, e1)" by (cases "onMessage P st m")
  from Cons.prems have none: "frame_id P m = None" and rest: "\<forall>f\<in>set ms. frame_id P f = None"
    by simp_all
  from onMessage_id [OF h] none have id1: "messageId st1 = messageId st" by simp
  from Cons.IH [OF rest, of st1] id1
  have ih: "messageId (fst (run_frames P st1 ms)) = messageId st"
    "list_all (answer_ids (messageId st)) (snd (run_frames P st1 ms))" by simp_all
  from onMessage_events [OF h] id1 have "list_all (answer_ids (messageId st)) e1" by auto
  with ih h show ?case by (auto split: prod.splits)
qed

lemma answer_texts_append: "answer_texts (xs @ ys) = answer_texts xs @ answer_texts ys"
  by (induction xs rule: answer_texts.induct) simp_all

lemma run_frames_texts:
  "run_frames P st fs = (st', evs) \<Longrightarrow>
     prefix (result st) (result st') \<and>
     (\<forall>t\<in>set (answer_texts evs). prefix (result st) t) \<and>
     sorted_wrt prefix (answer_texts evs)"
proof (induction fs arbitrary: st st' evs)
  case Nil
  then show ?case by simp
next
  case (Cons m ms)
  obtain st1 e1 where h: "onMessage P st m = (st1, e1)" by (cases "onMessage P st m")
  obtain st2 e2 where r: "run_frames P st1 ms = (st2, e2)" by (cases "run_frames P st1 ms")
  from Cons.prems h r have eq: "st' = st2" "evs = e1 @ e2" by simp_all
  from Cons.IH [OF r]
  have ih: "prefix (result st1) (result st2)"
    "\<forall>t\<in>set (answer_texts e2). prefix (result st1) t"
    "sorted_wrt prefix (answer_texts e2)" by simp_all
  from onMessage_events [OF h] have p1: "prefix (result st) (result st1)" by auto
  from onMessage_events [OF h]
  have e1: "answer_texts e1 = [] \<or> answer_texts e1 = [result st1]" by auto
  from p1 ih(1) have a: "prefix (result st) (result st')" using eq by (auto intro: prefix_order.trans)
  from p1 ih(2) e1 have b: "\<forall>t\<in>set (answer_texts evs). prefix (result st) t"
    using eq by (auto simp: answer_texts_append intro: prefix_order.trans)
  from ih(2,3) e1 have c: "sorted_wrt prefix (answer_texts evs)"
    using eq by (auto simp: answer_texts_append)
  from a b c show ?case by simp
qed

lemma events_generateAnswer:
  "fetchSSE (build_request this prompt) = (frames, failure) \<Longrightarrow>
     events (generateAnswer P fetchSSE this prompt) = snd (run_frames P initial_state frames)"
  by (simp add: generateAnswer_def Let_def)

lemma get_prop_fails: "get_prop v k = Inl e \<longleftrightarrow> nullish v \<and> e = TypeError"
  by (cases v) auto

lemma get_prop_ok: "get_prop v k = Inr x \<Longrightarrow> \<not> nullish v"
  by (cases v) auto

lemma frame_id_truthy: "frame_id P m = Some i \<Longrightarrow> truthy i"
  by (auto simp: frame_id_def split: if_splits option.splits sum.splits)

lemma run_frames_first_id:
  assumes empty: "\<not> truthy (messageId st)" and first: "frame_id P m = Some i"
  shows "messageId (fst (run_frames P st (m # later))) = i \<and>
         list_all (answer_ids i) (snd (run_frames P st (m # later)))"
proof -
  obtain st1 e1 where h: "onMessage P st m = (st1, e1)" by (cases "onMessage P st m")
  from onMessage_id [OF h] empty first have id1: "messageId st1 = i" by simp
  from onMessage_events [OF h] id1 have a: "list_all (answer_ids i) e1" by auto
  from frame_id_truthy [OF first] id1 have "truthy (messageId st1)" by simp
  from run_frames_id_kept [OF this, of P later] id1
  have "messageId (fst (run_frames P st1 later)) = i"
    "list_all (answer_ids i) (snd (run_frames P st1 later))" by simp_all
  with a h show ?thesis by (auto split: prod.splits)
qed

section \<open>Terminal events\<close>

text \<open>
  Claim C1, as the code has it. The handler emits at most one event per frame, and a
  sentinel frame emits exactly \<open>Done\<close> whatever came before: the handler keeps no record of
  a \<open>Done\<close> already emitted, so a frame delivered after one is handled like any other. If
  the transport delivers no frame after the first frame that emits \<open>Done\<close>, the call emits
  at most one \<open>Done\<close>, and that \<open>Done\<close> is its last event.
\<close>

theorem done_last_when_delivery_stops:
  assumes net: "fetchSSE (build_request this prompt) = (pre @ [m], failure)"
    and quiet: "Done \<notin> set (snd (run_frames P initial_state pre))"
  shows "length (snd (onMessage P st f)) \<le> 1
       \<and> onMessage P st sentinel = (st, [Done])
       \<and> count_list (events (generateAnswer P fetchSSE this prompt)) Done \<le> 1
       \<and> (Done \<in> set (events (generateAnswer P fetchSSE this prompt)) \<longrightarrow>
            last (events (generateAnswer P fetchSSE this prompt)) = Done)"
proof -
  obtain st1 e1 where r: "run_frames P initial_state pre = (st1, e1)"
    by (cases "run_frames P initial_state pre")
  obtain st2 e2 where h: "onMessage P st1 m = (st2, e2)" by (cases "onMessage P st1 m")
  from net have ev: "events (generateAnswer P fetchSSE this prompt) = e1 @ e2"
    by (simp add: events_generateAnswer run_frames_append r h)
  from quiet r have q: "Done \<notin> set e1" by simp
  then have c1: "count_list e1 Done = 0" by (simp add: count_list_0_iff)
  from onMessage_length [of P st1 m] h have len: "length e2 \<le> 1" by simp
  have c2: "count_list e2 Done \<le> 1"
    using len by (cases e2) auto
  have l: "Done \<in> set (e1 @ e2) \<longrightarrow> last (e1 @ e2) = Done"
    using q len by (cases e2) auto
  from c1 c2 l ev onMessage_length [of P st f] show ?thesis
    by (simp add: onMessage_sentinel)
qed

theorem done_last_when_delivery_stops_witness:
  "Done \<notin> set (snd (run_frames js initial_state [frame_hel, frame_lo]))
   \<and> count_list (events (generateAnswer js (\<lambda>req. ([frame_hel, frame_lo] @ [frame_stop], None))
        demo_provider ''hi'')) Done \<le> 1
   \<and> last (events (generateAnswer js (\<lambda>req. ([frame_hel, frame_lo] @ [frame_stop], None))
        demo_provider ''hi'')) = Done"
proof -
  have quiet: "Done \<notin> set (snd (run_frames js initial_state [frame_hel, frame_lo]))"
    by code_simp
  have there: "Done \<in> set (events (generateAnswer js
      (\<lambda>req. ([frame_hel, frame_lo] @ [frame_stop], None)) demo_provider ''hi''))"
    by code_simp
  note th = done_last_when_delivery_stops
    [where fetchSSE = "\<lambda>req. ([frame_hel, frame_lo] @ [frame_stop], None)", OF refl quiet]
  from quiet there th show ?thesis by blast
qed

text \<open>
  The claim as the spec words it (no event of any kind after the first \<open>Done\<close>, later
  sentinel frames ignored) fails on the stream a vendor really sends, a frame with
  \<open>finish_reason: "stop"\<close> followed by \<open>[DONE]\<close>: both emit \<open>Done\<close>, and a content frame
  after them still emits an \<open>Answer\<close>.
\<close>

theorem done_repeated_counterexample:
  "events (generateAnswer js (\<lambda>req. ([frame_hel, frame_stop, sentinel, frame_lo], None))
      demo_provider ''hi'') =
     [Answer ''Hel'' (JStr ''m1'') (JStr ''m1''), Done, Done,
      Answer ''Hello'' (JStr ''m1'') (JStr ''m1'')]"
  by code_simp

text \<open>
  Claim C2, as the code has it. \<open>generateAnswer\<close> emits no \<open>Error\<close> event: its events are
  those of the frames delivered, whatever the transport's outcome. When the transport
  reports an error the call fails with that error (the awaited \<open>fetchSSE\<close> rejects, and
  so does the promise of \<open>generateAnswer\<close>); when the stream ends the call returns
  normally.
\<close>

theorem no_error_event:
  assumes net: "fetchSSE (build_request this prompt) = (frames, failure)"
  shows "(\<forall>e. Error e \<notin> set (events (generateAnswer P fetchSSE this prompt)))
       \<and> events (generateAnswer P fetchSSE this prompt) = snd (run_frames P initial_state frames)
       \<and> returned (generateAnswer P fetchSSE this prompt) =
            (case failure of None \<Rightarrow> Inr () | Some e \<Rightarrow> Inl e)"
  using net by (simp add: events_generateAnswer run_frames_no_error)
    (simp add: generateAnswer_def Let_def)

theorem no_error_event_witness:
  "Error ''HTTP 500'' \<notin> set (events (generateAnswer js (\<lambda>req. ([frame_hel], Some ''HTTP 500''))
        demo_provider ''hi''))
   \<and> returned (generateAnswer js (\<lambda>req. ([frame_hel], Some ''HTTP 500'')) demo_provider ''hi'')
       = Inl ''HTTP 500''"
proof -
  note th = no_error_event [where fetchSSE = "\<lambda>req. ([frame_hel], Some ''HTTP 500'')"
      and P = js and this = demo_provider and prompt = "''hi''", OF refl]
  have a: "Error ''HTTP 500'' \<notin> set (events (generateAnswer js
      (\<lambda>req. ([frame_hel], Some ''HTTP 500'')) demo_provider ''hi''))"
    using th by blast
  have b: "returned (generateAnswer js (\<lambda>req. ([frame_hel], Some ''HTTP 500''))
      demo_provider ''hi'') = Inl ''HTTP 500''"
    using th [THEN conjunct2, THEN conjunct2] by simp
  from a b show ?thesis by (rule conjI)
qed

text \<open>
  The claim as the spec words it (exactly one terminal \<open>Error\<close> when the transport fails or
  the stream ends without \<open>Done\<close>) fails: after one content frame the call ends with
  neither \<open>Done\<close> nor \<open>Error\<close>, both when the transport rejects and when the stream just
  ends.
\<close>

theorem no_terminal_event_counterexample:
  "events (generateAnswer js (\<lambda>req. ([frame_hel], Some ''HTTP 500'')) demo_provider ''hi'') =
     [Answer ''Hel'' (JStr ''m1'') (JStr ''m1'')]
   \<and> returned (generateAnswer js (\<lambda>req. ([frame_hel], Some ''HTTP 500'')) demo_provider ''hi'')
       = Inl ''HTTP 500''
   \<and> events (generateAnswer js (\<lambda>req. ([frame_hel], None)) demo_provider ''hi'') =
     [Answer ''Hel'' (JStr ''m1'') (JStr ''m1'')]
   \<and> returned (generateAnswer js (\<lambda>req. ([frame_hel], None)) demo_provider ''hi'') = Inr ()"
  by code_simp

section \<open>The streaming example\<close>

text \<open>
  Claim C3. When the transport delivers the three frames
  \<open>{"id":"m1","choices":[{"delta":{"content":"Hel"}}]}\<close>,
  \<open>{"choices":[{"delta":{"content":"lo"}}]}\<close> and \<open>[DONE]\<close>, on a platform whose
  \<open>JSON.parse\<close> reads the two JSON texts as the objects they denote, \<open>generateAnswer\<close>
  emits exactly \<open>Answer{text: "Hel", messageId: "m1"}\<close>,
  \<open>Answer{text: "Hello", messageId: "m1"}\<close> and \<open>Done\<close>, in that order.
\<close>

theorem stream_example:
  assumes hel: "JSON_parse P frame_hel =
      Some (JObj [(''id'', JStr ''m1''),
                  (''choices'', JArr [JObj [(''delta'', JObj [(''content'', JStr ''Hel'')])]])])"
    and lo: "JSON_parse P frame_lo =
      Some (JObj [(''choices'', JArr [JObj [(''delta'', JObj [(''content'', JStr ''lo'')])]])])"
    and net: "fetchSSE (build_request this prompt) = ([frame_hel, frame_lo, sentinel], failure)"
  shows "events (generateAnswer P fetchSSE this prompt) =
           [Answer ''Hel'' (JStr ''m1'') (JStr ''m1''),
            Answer ''Hello'' (JStr ''m1'') (JStr ''m1''),
            Done]"
proof -
  have ne: "frame_hel \<noteq> sentinel" "frame_lo \<noteq> sentinel"
    by (simp_all add: frame_hel_def frame_lo_def sentinel_def)
  have s1: "onMessage P initial_state frame_hel =
      (\<lparr>result = ''Hel'', messageId = JStr ''m1''\<rparr>, [Answer ''Hel'' (JStr ''m1'') (JStr ''m1'')])"
    using ne hel
    by (simp add: onMessage_def handle_data_def record_id_def has_choices_def first_choice_def
        extract_content_def initial_state_def Let_def)
  have s2: "onMessage P \<lparr>result = ''Hel'', messageId = JStr ''m1''\<rparr> frame_lo =
      (\<lparr>result = ''Hello'', messageId = JStr ''m1''\<rparr>,
       [Answer ''Hello'' (JStr ''m1'') (JStr ''m1'')])"
    using ne lo
    by (simp add: onMessage_def handle_data_def record_id_def has_choices_def first_choice_def
        extract_content_def Let_def)
  show ?thesis
    using net by (simp add: events_generateAnswer s1 s2 onMessage_sentinel)
qed

theorem stream_example_witness:
  "JSON_parse js frame_hel =
      Some (JObj [(''id'', JStr ''m1''),
                  (''choices'', JArr [JObj [(''delta'', JObj [(''content'', JStr ''Hel'')])]])])
   \<and> JSON_parse js frame_lo =
      Some (JObj [(''choices'', JArr [JObj [(''delta'', JObj [(''content'', JStr ''lo'')])]])])
   \<and> events (generateAnswer js (\<lambda>req. ([frame_hel, frame_lo, sentinel], None))
        demo_provider ''What is Isabelle?'') =
           [Answer ''Hel'' (JStr ''m1'') (JStr ''m1''),
            Answer ''Hello'' (JStr ''m1'') (JStr ''m1''),
            Done]"
proof -
  have hel: "JSON_parse js frame_hel =
      Some (JObj [(''id'', JStr ''m1''),
                  (''choices'', JArr [JObj [(''delta'', JObj [(''content'', JStr ''Hel'')])]])])"
    by code_simp
  have lo: "JSON_parse js frame_lo =
      Some (JObj [(''choices'', JArr [JObj [(''delta'', JObj [(''content'', JStr ''lo'')])]])])"
    by code_simp
  note ex = stream_example [where fetchSSE = "\<lambda>req. ([frame_hel, frame_lo, sentinel], None)",
      OF hel lo refl]
  from hel lo ex show ?thesis by (intro conjI)
qed

section \<open>Accumulated text\<close>

text \<open>
  Claim C4. Within one call, the text of an \<open>Answer\<close> event is a prefix of the text of
  every later \<open>Answer\<close> event, in particular of the next one: each carries the whole
  answer accumulated so far.
\<close>

theorem answer_texts_prefix_extending:
  assumes net: "fetchSSE (build_request this prompt) = (frames, failure)"
  shows "\<forall>i j. i < j \<longrightarrow> j < length (answer_texts (events (generateAnswer P fetchSSE this prompt))) \<longrightarrow>
           prefix (answer_texts (events (generateAnswer P fetchSSE this prompt)) ! i)
                  (answer_texts (events (generateAnswer P fetchSSE this prompt)) ! j)"
proof -
  obtain st' evs where r: "run_frames P initial_state frames = (st', evs)"
    by (cases "run_frames P initial_state frames")
  from net r have ev: "events (generateAnswer P fetchSSE this prompt) = evs"
    by (simp add: events_generateAnswer)
  from run_frames_texts [OF r] have "sorted_wrt prefix (answer_texts evs)" by simp
  then show ?thesis unfolding ev by (simp add: sorted_wrt_iff_nth_less)
qed

theorem answer_texts_prefix_extending_witness:
  "answer_texts (events (generateAnswer js (\<lambda>req. ([frame_hel, frame_lo, sentinel], None))
      demo_provider ''hi'')) = [''Hel'', ''Hello'']
   \<and> prefix ''Hel'' ''Hello''"
proof -
  have texts: "answer_texts (events (generateAnswer js
      (\<lambda>req. ([frame_hel, frame_lo, sentinel], None)) demo_provider ''hi'')) = [''Hel'', ''Hello'']"
    by code_simp
  note th = answer_texts_prefix_extending
    [where fetchSSE = "\<lambda>req. ([frame_hel, frame_lo, sentinel], None)" and P = js
      and this = demo_provider and prompt = "''hi''", OF refl, rule_format, of 0 1]
  have "prefix ''Hel'' ''Hello''" using th unfolding texts by simp
  with texts show ?thesis by (rule conjI)
qed

section \<open>Frames that do not parse\<close>

text \<open>
  Claim C5. A frame that is not the sentinel and that \<open>JSON.parse\<close> rejects changes
  nothing and emits nothing: the call behaves as if the frame had not been delivered
  (same events, same outcome), so no \<open>Error\<close> event is emitted for it, and a sentinel
  delivered after it still yields \<open>Done\<close>.
\<close>

theorem malformed_frame_skipped:
  assumes ns: "m \<noteq> sentinel"
    and bad: "JSON_parse P m = None"
    and net: "fetchSSE (build_request this prompt) = (pre @ m # post, failure)"
    and net': "fetchSSE' (build_request this prompt) = (pre @ post, failure)"
  shows "onMessage P st m = (st, [])
       \<and> generateAnswer P fetchSSE this prompt = generateAnswer P fetchSSE' this prompt
       \<and> (\<forall>e. Error e \<notin> set (events (generateAnswer P fetchSSE this prompt)))
       \<and> (sentinel \<in> set post \<longrightarrow> Done \<in> set (events (generateAnswer P fetchSSE this prompt)))"
proof -
  have skip: "\<And>s. onMessage P s m = (s, [])"
    using ns bad by (simp add: onMessage_def)
  have same: "run_frames P initial_state (pre @ m # post) = run_frames P initial_state (pre @ post)"
    by (simp add: run_frames_append skip split: prod.splits)
  have eq: "generateAnswer P fetchSSE this prompt = generateAnswer P fetchSSE' this prompt"
    using net net' same by (simp add: generateAnswer_def Let_def)
  have ev: "events (generateAnswer P fetchSSE this prompt) =
      snd (run_frames P initial_state (pre @ post))"
    using net same by (simp add: events_generateAnswer)
  have d: "sentinel \<in> set post \<longrightarrow> Done \<in> set (events (generateAnswer P fetchSSE this prompt))"
    unfolding ev by (auto intro: run_frames_sentinel)
  have ne: "\<forall>e. Error e \<notin> set (events (generateAnswer P fetchSSE this prompt))"
    unfolding ev by (simp add: run_frames_no_error)
  from skip [of st] eq ne d show ?thesis by blast
qed

theorem malformed_frame_skipped_witness:
  "frame_keepalive \<noteq> sentinel \<and> JSON_parse js frame_keepalive = None
   \<and> onMessage js initial_state frame_keepalive = (initial_state, [])
   \<and> generateAnswer js (\<lambda>req. ([frame_hel] @ frame_keepalive # [frame_lo, sentinel], None))
        demo_provider ''hi'' =
      generateAnswer js (\<lambda>req. ([frame_hel] @ [frame_lo, sentinel], None)) demo_provider ''hi''
   \<and> Done \<in> set (events (generateAnswer js
        (\<lambda>req. ([frame_hel] @ frame_keepalive # [frame_lo, sentinel], None)) demo_provider ''hi''))"
proof -
  have ns: "frame_keepalive \<noteq> sentinel" by (simp add: frame_keepalive_def sentinel_def)
  have bad: "JSON_parse js frame_keepalive = None" by code_simp
  have la: "sentinel \<in> set [frame_lo, sentinel]" by simp
  note th = malformed_frame_skipped
    [where fetchSSE = "\<lambda>req. ([frame_hel] @ frame_keepalive # [frame_lo, sentinel], None)"
      and fetchSSE' = "\<lambda>req. ([frame_hel] @ [frame_lo, sentinel], None)"
      and st = initial_state and this = demo_provider and prompt = "''hi''",
      OF ns bad refl refl]
  from ns bad la th show ?thesis by blast
qed

section \<open>The stop frame\<close>

text \<open>
  Claim C6. A frame whose first choice has \<open>finish_reason\<close> equal to \<open>"stop"\<close> emits
  \<open>Done\<close> and nothing else (no \<open>Answer\<close> before it, with or without a content delta), and
  leaves the accumulated text as it was.
\<close>

theorem stop_frame_emits_done_only:
  assumes ns: "m \<noteq> sentinel"
    and parsed: "JSON_parse P m = Some (JObj kvs)"
    and choices: "map_of kvs ''choices'' = Some (JArr (JObj c # cs))"
    and stop: "map_of c ''finish_reason'' = Some (JStr ''stop'')"
  shows "snd (onMessage P st m) = [Done] \<and> result (fst (onMessage P st m)) = result st"
  using assms
  by (simp add: onMessage_def handle_data_def record_id_def has_choices_def first_choice_def
      Let_def split: option.splits)

theorem stop_frame_emits_done_only_witness:
  "frame_stop \<noteq> sentinel
   \<and> JSON_parse js frame_stop =
       Some (JObj [(''id'', JStr ''m2''),
                   (''choices'', JArr [JObj [(''delta'', JObj []),
                                             (''finish_reason'', JStr ''stop'')]])])
   \<and> snd (onMessage js \<lparr>result = ''Hello'', messageId = JStr ''m1''\<rparr> frame_stop) = [Done]
   \<and> result (fst (onMessage js \<lparr>result = ''Hello'', messageId = JStr ''m1''\<rparr> frame_stop)) = ''Hello''"
proof -
  have ns: "frame_stop \<noteq> sentinel" by (simp add: frame_stop_def sentinel_def)
  have parsed: "JSON_parse js frame_stop =
       Some (JObj [(''id'', JStr ''m2''),
                   (''choices'', JArr [JObj [(''delta'', JObj []),
                                             (''finish_reason'', JStr ''stop'')]])])"
    by code_simp
  have choices: "map_of [(''id'', JStr ''m2''),
                   (''choices'', JArr [JObj [(''delta'', JObj []),
                                             (''finish_reason'', JStr ''stop'')]])] ''choices''
      = Some (JArr (JObj [(''delta'', JObj []), (''finish_reason'', JStr ''stop'')] # []))"
    by simp
  have stop: "map_of [(''delta'', JObj []), (''finish_reason'', JStr ''stop'')] ''finish_reason''
      = Some (JStr ''stop'')" by simp
  note th = stop_frame_emits_done_only [OF ns parsed choices stop,
      of "\<lparr>result = ''Hello'', messageId = JStr ''m1''\<rparr>"]
  from ns parsed th show ?thesis by simp
qed

section \<open>The message identifier\<close>

text \<open>
  Claim C7. The message identifier is written once. If \<open>m\<close> is the first frame delivered
  that carries a top-level id \<open>i\<close> (see \<open>frame_id\<close>), then after \<open>m\<close> the identifier is \<open>i\<close>
  whatever frames follow, with whatever ids; every \<open>Answer\<close> emitted from \<open>m\<close> on carries
  \<open>i\<close> both as \<open>messageId\<close> and as \<open>conversationId\<close>, and every \<open>Answer\<close> emitted before
  \<open>m\<close> carries the initial empty string as both.
\<close>

theorem message_id_write_once:
  assumes net: "fetchSSE (build_request this prompt) = (pre @ m # post, failure)"
    and none: "\<forall>f\<in>set pre. frame_id P f = None"
    and first: "frame_id P m = Some i"
  shows "(\<forall>later. messageId (fst (run_frames P initial_state (pre @ m # later))) = i)
       \<and> prefix (snd (run_frames P initial_state pre))
            (events (generateAnswer P fetchSSE this prompt))
       \<and> list_all (answer_ids (JStr []))
            (take (length (snd (run_frames P initial_state pre)))
               (events (generateAnswer P fetchSSE this prompt)))
       \<and> list_all (answer_ids i)
            (drop (length (snd (run_frames P initial_state pre)))
               (events (generateAnswer P fetchSSE this prompt)))"
proof -
  obtain st1 e1 where r: "run_frames P initial_state pre = (st1, e1)"
    by (cases "run_frames P initial_state pre")
  from run_frames_no_id [OF none, of initial_state] r
  have id1: "messageId st1 = JStr []" and a1: "list_all (answer_ids (JStr [])) e1"
    by (simp_all add: initial_state_def)
  from id1 have empty: "\<not> truthy (messageId st1)" by simp
  have later: "\<forall>later. messageId (fst (run_frames P initial_state (pre @ m # later))) = i"
  proof
    fix later
    from run_frames_first_id [OF empty first, of later]
    show "messageId (fst (run_frames P initial_state (pre @ m # later))) = i"
      by (simp add: run_frames_append r split: prod.splits)
  qed
  obtain st2 e2 where r2: "run_frames P st1 (m # post) = (st2, e2)"
    by (cases "run_frames P st1 (m # post)")
  from run_frames_first_id [OF empty first, of post] r2
  have a2: "list_all (answer_ids i) e2" by simp
  from net have ev: "events (generateAnswer P fetchSSE this prompt) = e1 @ e2"
    by (simp add: events_generateAnswer run_frames_append r r2 del: run_frames.simps)
  from later a1 a2 show ?thesis by (simp add: ev r)
qed

theorem message_id_write_once_witness:
  "frame_id js frame_lo = None \<and> frame_id js frame_hel = Some (JStr ''m1'')
   \<and> frame_id js frame_stop = Some (JStr ''m2'')
   \<and> events (generateAnswer js (\<lambda>req. ([frame_lo] @ frame_hel # [frame_stop, frame_lo], None))
        demo_provider ''hi'') =
       [Answer ''lo'' (JStr []) (JStr []), Answer ''loHel'' (JStr ''m1'') (JStr ''m1''), Done,
        Answer ''loHello'' (JStr ''m1'') (JStr ''m1'')]
   \<and> messageId (fst (run_frames js initial_state ([frame_lo] @ frame_hel # [frame_stop, frame_lo])))
       = JStr ''m1''
   \<and> list_all (answer_ids (JStr ''m1''))
        (drop (length (snd (run_frames js initial_state [frame_lo])))
          (events (generateAnswer js
            (\<lambda>req. ([frame_lo] @ frame_hel # [frame_stop, frame_lo], None)) demo_provider ''hi'')))"
proof -
  have n: "\<forall>f\<in>set [frame_lo]. frame_id js f = None" by code_simp
  have n': "frame_id js frame_lo = None" by code_simp
  have f: "frame_id js frame_hel = Some (JStr ''m1'')" by code_simp
  have s: "frame_id js frame_stop = Some (JStr ''m2'')" by code_simp
  have ev: "events (generateAnswer js
      (\<lambda>req. ([frame_lo] @ frame_hel # [frame_stop, frame_lo], None)) demo_provider ''hi'') =
       [Answer ''lo'' (JStr []) (JStr []), Answer ''loHel'' (JStr ''m1'') (JStr ''m1''), Done,
        Answer ''loHello'' (JStr ''m1'') (JStr ''m1'')]" by code_simp
  note th = message_id_write_once
    [where fetchSSE = "\<lambda>req. ([frame_lo] @ frame_hel # [frame_stop, frame_lo], None)"
      and this = demo_provider and prompt = "''hi''", OF refl n f]
  from n' f s ev th show ?thesis by blast
qed

section \<open>Deltas\<close>










section \<open>The endpoint\<close>

text \<open>
  Claim C9. When the constructor's \<open>apiBaseUrl\<close> argument is omitted, \<open>undefined\<close> or the
  empty string, the provider's base URL is \<open>https://api.openai.com\<close>, and \<open>generateAnswer\<close>
  sends a \<open>POST\<close> to \<open>https://api.openai.com/v1/chat/completions\<close>.
\<close>

theorem default_base_url:
  assumes "base = None \<or> base = Some []"
  shows "apiBaseUrl (OpenAIProvider tok mdl base) = ''https://api.openai.com''
       \<and> url (sent (generateAnswer P fetchSSE (OpenAIProvider tok mdl base) prompt)) =
           ''https://api.openai.com/v1/chat/completions''
       \<and> http_method (sent (generateAnswer P fetchSSE (OpenAIProvider tok mdl base) prompt)) =
           ''POST''"
  using assms
  by (auto simp: OpenAIProvider_def generateAnswer_def build_request_def Let_def
      split: prod.splits)

theorem default_base_url_witness:
  "apiBaseUrl (OpenAIProvider ''sk-test'' ''gpt-4o-mini'' None) = ''https://api.openai.com''
   \<and> apiBaseUrl (OpenAIProvider ''sk-test'' ''gpt-4o-mini'' (Some [])) = ''https://api.openai.com''
   \<and> url (sent (generateAnswer js (\<lambda>req. ([sentinel], None))
        (OpenAIProvider ''sk-test'' ''gpt-4o-mini'' (Some [])) ''hi'')) =
       ''https://api.openai.com/v1/chat/completions''
   \<and> http_method (sent (generateAnswer js (\<lambda>req. ([sentinel], None))
        (OpenAIProvider ''sk-test'' ''gpt-4o-mini'' None) ''hi'')) = ''POST''"
proof -
  have a: "(None :: string option) = None \<or> (None :: string option) = Some []" by simp
  have b: "Some [] = (None :: string option) \<or> Some [] = Some ([] :: string)" by simp
  note ta = default_base_url [OF a, of "''sk-test''" "''gpt-4o-mini''" js
      "\<lambda>req. ([sentinel], None)" "''hi''"]
  note tb = default_base_url [OF b, of "''sk-test''" "''gpt-4o-mini''" js
      "\<lambda>req. ([sentinel], None)" "''hi''"]
  from ta tb show ?thesis by blast
qed

section \<open>Answers before an identifier\<close>

text \<open>
  Claim C10. The events of the frames delivered before any frame that carries a top-level
  id are the first events of the call, and every \<open>Answer\<close> among them has the empty
  string both as \<open>messageId\<close> and as \<open>conversationId\<close>.
\<close>

theorem answers_before_any_id:
  assumes net: "fetchSSE (build_request this prompt) = (pre @ post, failure)"
    and none: "\<forall>f\<in>set pre. frame_id P f = None"
  shows "prefix (snd (run_frames P initial_state pre))
            (events (generateAnswer P fetchSSE this prompt))
       \<and> list_all (answer_ids (JStr [])) (snd (run_frames P initial_state pre))"
proof -
  obtain st1 e1 where r: "run_frames P initial_state pre = (st1, e1)"
    by (cases "run_frames P initial_state pre")
  from run_frames_no_id [OF none, of initial_state] r
  have a1: "list_all (answer_ids (JStr [])) e1" by (simp add: initial_state_def)
  from net have "events (generateAnswer P fetchSSE this prompt) = e1 @ snd (run_frames P st1 post)"
    by (simp add: events_generateAnswer run_frames_append r split: prod.splits)
  with a1 show ?thesis by (simp add: r)
qed

theorem answers_before_any_id_witness:
  "frame_id js frame_lo = None \<and> frame_id js frame_keepalive = None
   \<and> snd (run_frames js initial_state [frame_lo, frame_keepalive, frame_lo]) =
       [Answer ''lo'' (JStr []) (JStr []), Answer ''lolo'' (JStr []) (JStr [])]
   \<and> prefix (snd (run_frames js initial_state [frame_lo, frame_keepalive, frame_lo]))
        (events (generateAnswer js
          (\<lambda>req. ([frame_lo, frame_keepalive, frame_lo] @ [frame_hel, sentinel], None))
          demo_provider ''hi''))
   \<and> list_all (answer_ids (JStr []))
        (snd (run_frames js initial_state [frame_lo, frame_keepalive, frame_lo]))"
proof -
  have n1: "frame_id js frame_lo = None" by code_simp
  have n2: "frame_id js frame_keepalive = None" by code_simp
  from n1 n2 have n: "\<forall>f\<in>set [frame_lo, frame_keepalive, frame_lo]. frame_id js f = None"
    by simp
  have ev: "snd (run_frames js initial_state [frame_lo, frame_keepalive, frame_lo]) =
       [Answer ''lo'' (JStr []) (JStr []), Answer ''lolo'' (JStr []) (JStr [])]" by code_simp
  note th = answers_before_any_id
    [where fetchSSE = "\<lambda>req. ([frame_lo, frame_keepalive, frame_lo] @ [frame_hel, sentinel], None)"
      and this = demo_provider and prompt = "''hi''", OF refl n]
  from n1 n2 ev th show ?thesis by blast
qed

end
